theory Spec2Isabelle
  imports Main
begin

section \<open>AggregateQueryBuilder: the data model\<close>

text \<open>
  The class \<^verbatim>\<open>AggregateQueryBuilder\<close> of \<^verbatim>\<open>src/aggregateQueryBuilder.ts\<close> assembles a
  list of aggregation stages. A stage is a plain JavaScript document, so stages are values of
  a small JSON datatype. An object literal is the list of its keys and values in the order the
  source writes them. Numbers are only carried along, never computed with, and are integers
  here. \<open>JMember name\<close> is the member of \<^verbatim>\<open>Object.prototype\<close> of that name (a function
  such as \<^verbatim>\<open>Object.prototype.toString\<close>, or the prototype object itself for
  \<^verbatim>\<open>__proto__\<close>): reading the registry can return such a value, and \<^verbatim>\<open>matchIf\<close> puts
  what it reads into its stage. \<open>JShared a\<close> occurs only in the draft of the class
  described further down, where a stage can hold an array that a registry entry holds as
  well: it is the array at address \<open>a\<close> of the draft's store.
\<close>

datatype json =
    JNull
  | JBool bool
  | JNum int
  | JStr string
  | JArr "json list"
  | JObj "(string \<times> json) list"
  | JMember string
  | JShared nat

type_synonym stage = json

text \<open>
  The fields of the class. \<^verbatim>\<open>model\<close> is the Mongoose model; the only thing the builder
  ever reads from it is \<^verbatim>\<open>model.schema.path(field)?.options?.ref\<close>, so the model is the
  function from a field name to that reference (\<open>None\<close> when the path, its options or the
  reference are missing or falsy). \<^verbatim>\<open>subPipeline\<close> is the object created by \<^verbatim>\<open>{}\<close> and
  declared as \<^verbatim>\<open>{ [key: string]: PipelineStage[] }\<close>; the map holds its own properties.
  \<^verbatim>\<open>subPipelineCounter\<close> is a number that starts at 0.
\<close>

record builder =
  model :: "string \<Rightarrow> string option"
  pipeline :: "stage list"
  subPipeline :: "string \<rightharpoonup> stage list"
  subPipelineCounter :: nat

text \<open>The constructor.\<close>

definition new_builder :: "(string \<Rightarrow> string option) \<Rightarrow> builder" where
  "new_builder m = \<lparr>model = m, pipeline = [], subPipeline = Map.empty, subPipelineCounter = 0\<rparr>"

text \<open>
  The exceptions. \<^verbatim>\<open>matchIf\<close> throws \<^verbatim>\<open>new Error(message)\<close>; calling \<^verbatim>\<open>push\<close> on, or
  spreading, a value that is not an array throws a \<^verbatim>\<open>TypeError\<close>; \<^verbatim>\<open>mongoose.model(name)\<close>
  throws a \<^verbatim>\<open>MissingSchemaError\<close> for a name that no model is registered under. A call
  that throws may have changed the builder already, and the caller still holds the builder,
  so a failed call returns the error together with the builder it leaves behind.
\<close>

datatype error = Error string | TypeError | MissingSchemaError string

type_synonym outcome = "(error \<times> builder) + builder"

definition raised :: "outcome \<Rightarrow> bool" where
  "raised r = (case r of Inl _ \<Rightarrow> True | Inr _ \<Rightarrow> False)"

definition state_of :: "outcome \<Rightarrow> builder" where
  "state_of r = (case r of Inl (e, b) \<Rightarrow> b | Inr b \<Rightarrow> b)"

section \<open>Reading the registry\<close>

text \<open>
  The registry is read as \<^verbatim>\<open>this.subPipeline[name]\<close> everywhere. The object has the
  prototype \<^verbatim>\<open>Object.prototype\<close>, so a name without an own property reads as the member
  that the object inherits under that name, if there is one, and as \<^verbatim>\<open>undefined\<close>
  otherwise. The inherited members are those of \<^verbatim>\<open>Object.prototype\<close> in Node.js; each of
  them is truthy, none is an array, and none is iterable.
\<close>

definition objectPrototype :: "string list" where
  "objectPrototype =
     [''constructor'', ''__defineGetter__'', ''__defineSetter__'', ''hasOwnProperty'',
      ''__lookupGetter__'', ''__lookupSetter__'', ''isPrototypeOf'', ''propertyIsEnumerable'',
      ''toString'', ''valueOf'', ''__proto__'', ''toLocaleString'']"

definition inherited :: "string \<Rightarrow> bool" where
  "inherited name = (name \<in> set objectPrototype)"

datatype slot = Undefined | Stages "stage list" | Member string

definition readEntry :: "builder \<Rightarrow> string \<Rightarrow> slot" where
  "readEntry b name =
     (case subPipeline b name of
        Some l \<Rightarrow> Stages l
      | None \<Rightarrow> if inherited name then Member name else Undefined)"

section \<open>Routing a stage: the private helpers\<close>

text \<open>
  \<^verbatim>\<open>addToPipeline(stage, subPipelineName?)\<close>. The optional name is \<open>None\<close> when the
  argument is left out. The test \<^verbatim>\<open>if (subPipelineName)\<close> is a truthiness test: it fails
  for \<^verbatim>\<open>undefined\<close> and for the empty string. In the named branch a name that reads as
  \<^verbatim>\<open>undefined\<close> is first set to the empty array, and the stage is pushed onto what the
  name reads as; an inherited member has no \<^verbatim>\<open>push\<close>, so the call throws.
\<close>

definition truthy :: "string option \<Rightarrow> bool" where
  "truthy subPipelineName = (case subPipelineName of None \<Rightarrow> False | Some n \<Rightarrow> n \<noteq> [])"

definition addToPipeline :: "stage \<Rightarrow> string option \<Rightarrow> builder \<Rightarrow> outcome" where
  "addToPipeline stage subPipelineName b =
     (case subPipelineName of
        None \<Rightarrow> Inr (b\<lparr>pipeline := pipeline b @ [stage]\<rparr>)
      | Some n \<Rightarrow>
          if n \<noteq> [] then
            (case readEntry b n of
               Undefined \<Rightarrow> Inr (b\<lparr>subPipeline := (subPipeline b)(n \<mapsto> [] @ [stage])\<rparr>)
             | Stages l \<Rightarrow> Inr (b\<lparr>subPipeline := (subPipeline b)(n \<mapsto> l @ [stage])\<rparr>)
             | Member k \<Rightarrow> Inl (TypeError, b))
          else Inr (b\<lparr>pipeline := pipeline b @ [stage]\<rparr>))"

text \<open>
  \<^verbatim>\<open>build()\<close> returns the main pipeline.
\<close>

definition build :: "builder \<Rightarrow> stage list" where
  "build b = pipeline b"

text \<open>
  \<^verbatim>\<open>appendSubPipeline(name)\<close> tests what the name reads as for truthiness. An array, also
  the empty one, is truthy: it is spread into the main pipeline and the entry is deleted. An
  inherited member is truthy as well, and spreading it throws.
\<close>

definition appendSubPipeline :: "string \<Rightarrow> builder \<Rightarrow> outcome" where
  "appendSubPipeline name b =
     (case readEntry b name of
        Undefined \<Rightarrow> Inr b
      | Stages l \<Rightarrow>
          Inr (b\<lparr>pipeline := pipeline b @ l, subPipeline := (subPipeline b)(name := None)\<rparr>)
      | Member k \<Rightarrow> Inl (TypeError, b))"

text \<open>
  \<^verbatim>\<open>getAndRemoveSubPipeline(name)\<close> returns what the name reads as, with \<^verbatim>\<open>null\<close> in the
  place of \<^verbatim>\<open>undefined\<close> (the result \<open>Undefined\<close>), and deletes the own property of
  that name if the value is truthy; deleting a name that has no own property changes
  nothing.
\<close>

definition getAndRemoveSubPipeline :: "string \<Rightarrow> builder \<Rightarrow> slot \<times> builder" where
  "getAndRemoveSubPipeline name b =
     (case readEntry b name of
        Undefined \<Rightarrow> (Undefined, b)
      | Stages sub \<Rightarrow> (Stages sub, b\<lparr>subPipeline := (subPipeline b)(name := None)\<rparr>)
      | Member k \<Rightarrow> (Member k, b))"

text \<open>
  \<^verbatim>\<open>generateDefaultSubPipelineName()\<close> returns
  \<^verbatim>\<open>`subPipeline_${++this.subPipelineCounter}`\<close>. The counter is a JavaScript number:
  adding one is exact below \<open>2 ^ 53\<close>, and at \<open>2 ^ 53\<close> the sum rounds back to
  \<open>2 ^ 53\<close>, which is as far as a counter that starts at 0 ever gets. A number of that
  size is printed in plain decimal digits.
\<close>

definition digit :: "nat \<Rightarrow> char" where
  "digit d = ''0123456789'' ! d"

fun natToString :: "nat \<Rightarrow> string" where
  "natToString n = (if n < 10 then [digit n] else natToString (n div 10) @ [digit (n mod 10)])"

declare natToString.simps [simp del]

definition increment :: "nat \<Rightarrow> nat" where
  "increment c = (if c < 2 ^ 53 then c + 1 else c)"


section \<open>The stage documents\<close>

definition matchStage :: "string \<Rightarrow> json \<Rightarrow> stage" where
  "matchStage field v = JObj [(''$match'', JObj [(field, v)])]"

definition rangeStage :: "string \<Rightarrow> string \<Rightarrow> json \<Rightarrow> stage" where
  "rangeStage field operator v = JObj [(''$match'', JObj [(field, JObj [(operator, v)])])]"

text \<open>
  The conditional stage of \<^verbatim>\<open>matchIf\<close>. Each branch is what the retrieval of its name
  returned: the stage list of the entry, or an inherited member.
\<close>

definition branch :: "slot \<Rightarrow> json" where
  "branch s = (case s of Undefined \<Rightarrow> JNull | Stages l \<Rightarrow> JArr l | Member k \<Rightarrow> JMember k)"

definition condStage :: "json \<Rightarrow> json \<Rightarrow> json \<Rightarrow> stage" where
  "condStage condition trueMatch falseMatch =
     JObj [(''$match'',
       JObj [(''$expr'',
         JObj [(''$cond'',
           JObj [(''if'', JObj [(''$and'', condition)]),
                 (''then'', JObj [(''$and'', trueMatch)]),
                 (''else'', JObj [(''$and'', falseMatch)])])])])]"

definition switchStage :: "string \<Rightarrow> (json \<times> json) list \<Rightarrow> stage" where
  "switchStage switchField cases =
     JObj [(''$addFields'',
       JObj [(switchField,
         JObj [(''$switch'',
           JObj [(''branches'',
                    JArr (map (\<lambda>(caseCondition, thenValue).
                                 JObj [(''case'', caseCondition), (''then'', thenValue)]) cases)),
                 (''default'', JNull)])])])]"

definition lookupStage :: "string \<Rightarrow> string \<Rightarrow> stage" where
  "lookupStage from field =
     JObj [(''$lookup'',
       JObj [(''from'', JStr from),
             (''localField'', JStr field),
             (''foreignField'', JStr ''_id''),
             (''as'', JStr (field @ ''Details''))])]"

definition unwindStage :: "string \<Rightarrow> stage" where
  "unwindStage field = JObj [(''$unwind'', JStr (''$'' @ field @ ''Details''))]"

definition groupStage :: "json \<Rightarrow> stage" where
  "groupStage groupConditions = JObj [(''$group'', groupConditions)]"

definition projectStage :: "json \<Rightarrow> stage" where
  "projectStage fieldSpec = JObj [(''$project'', fieldSpec)]"

definition sortStage :: "json \<Rightarrow> stage" where
  "sortStage sortConditions = JObj [(''$sort'', sortConditions)]"

definition skipStage :: "int \<Rightarrow> stage" where
  "skipStage skipValue = JObj [(''$skip'', JNum skipValue)]"

definition limitStage :: "int \<Rightarrow> stage" where
  "limitStage limitValue = JObj [(''$limit'', JNum limitValue)]"

definition facetStage :: "json \<Rightarrow> stage" where
  "facetStage facets = JObj [(''$facet'', facets)]"

section \<open>The public methods\<close>

text \<open>
  Every stage-producing method builds its stage and hands it to \<^verbatim>\<open>addToPipeline\<close>; it
  returns the builder, or throws what \<^verbatim>\<open>addToPipeline\<close> throws.
\<close>

definition matchEqual :: "string \<Rightarrow> json \<Rightarrow> string option \<Rightarrow> builder \<Rightarrow> outcome" where
  "matchEqual field v subPipelineName b = addToPipeline (matchStage field v) subPipelineName b"

definition matchRange :: "string \<Rightarrow> string \<Rightarrow> json \<Rightarrow> string option \<Rightarrow> builder \<Rightarrow> outcome" where
  "matchRange field operator v subPipelineName b =
     addToPipeline (rangeStage field operator v) subPipelineName b"

definition matchLessThan :: "string \<Rightarrow> json \<Rightarrow> string option \<Rightarrow> builder \<Rightarrow> outcome" where
  "matchLessThan field v subPipelineName b = matchRange field ''$lt'' v subPipelineName b"

definition matchGreaterThan :: "string \<Rightarrow> json \<Rightarrow> string option \<Rightarrow> builder \<Rightarrow> outcome" where
  "matchGreaterThan field v subPipelineName b = matchRange field ''$gt'' v subPipelineName b"

text \<open>
  \<^verbatim>\<open>matchIf\<close> first retrieves and removes the three named entries, one after the other, and
  only then tests the three results for truthiness. The message of the error lists the three
  names.
\<close>

definition notFoundMessage :: "string \<Rightarrow> string \<Rightarrow> string \<Rightarrow> string" where
  "notFoundMessage c t f = ''One or more sub-pipelines not found: '' @ c @ '', '' @ t @ '', '' @ f"

definition matchIf :: "string \<Rightarrow> string \<Rightarrow> string \<Rightarrow> string option \<Rightarrow> builder \<Rightarrow> outcome" where
  "matchIf conditionPipelineName trueMatchPipelineName falseMatchPipelineName subPipelineName b =
     (let (condition, b1) = getAndRemoveSubPipeline conditionPipelineName b;
          (trueMatch, b2) = getAndRemoveSubPipeline trueMatchPipelineName b1;
          (falseMatch, b3) = getAndRemoveSubPipeline falseMatchPipelineName b2
      in if condition = Undefined \<or> trueMatch = Undefined \<or> falseMatch = Undefined
         then Inl (Error (notFoundMessage conditionPipelineName trueMatchPipelineName
                            falseMatchPipelineName), b3)
         else addToPipeline (condStage (branch condition) (branch trueMatch) (branch falseMatch))
                subPipelineName b3)"

definition matchSwitch :: "string \<Rightarrow> (json \<times> json) list \<Rightarrow> string option \<Rightarrow> builder \<Rightarrow> outcome" where
  "matchSwitch switchField cases subPipelineName b =
     addToPipeline (switchStage switchField cases) subPipelineName b"

text \<open>
  \<^verbatim>\<open>lookup\<close> is declared \<^verbatim>\<open>async\<close> but awaits nothing: its loop runs in one go, and an
  exception inside it ends the loop and rejects the promise. For a field whose schema path
  has a reference the loop calls \<^verbatim>\<open>mongoose.model(ref)\<close> and reads
  \<^verbatim>\<open>.collection.collectionName\<close>. The registry of models belongs to the Mongoose library
  and is the parameter \<open>collectionName\<close>: the collection of the model registered under a
  name, or \<open>None\<close> where no model is registered and \<^verbatim>\<open>mongoose.model\<close> throws.
\<close>

fun lookup :: "(string \<Rightarrow> string option) \<Rightarrow> string list \<Rightarrow> string option \<Rightarrow> builder \<Rightarrow> outcome" where
  "lookup collectionName [] subPipelineName b = Inr b"
| "lookup collectionName (field # rest) subPipelineName b =
     (case model b field of
        None \<Rightarrow> lookup collectionName rest subPipelineName b
      | Some ref \<Rightarrow>
          (case collectionName ref of
             None \<Rightarrow> Inl (MissingSchemaError ref, b)
           | Some from \<Rightarrow>
               (case addToPipeline (lookupStage from field) subPipelineName b of
                  Inl err \<Rightarrow> Inl err
                | Inr b' \<Rightarrow> lookup collectionName rest subPipelineName b')))"

fun unwind :: "string list \<Rightarrow> string option \<Rightarrow> builder \<Rightarrow> outcome" where
  "unwind [] subPipelineName b = Inr b"
| "unwind (field # rest) subPipelineName b =
     (case addToPipeline (unwindStage field) subPipelineName b of
        Inl err \<Rightarrow> Inl err
      | Inr b' \<Rightarrow> unwind rest subPipelineName b')"

definition group_op :: "json \<Rightarrow> string option \<Rightarrow> builder \<Rightarrow> outcome" where
  "group_op groupConditions subPipelineName b =
     addToPipeline (groupStage groupConditions) subPipelineName b"

definition project :: "json \<Rightarrow> string option \<Rightarrow> builder \<Rightarrow> outcome" where
  "project fieldSpec subPipelineName b = addToPipeline (projectStage fieldSpec) subPipelineName b"

definition sort_op :: "json \<Rightarrow> string option \<Rightarrow> builder \<Rightarrow> outcome" where
  "sort_op sortConditions subPipelineName b =
     addToPipeline (sortStage sortConditions) subPipelineName b"

definition skip :: "int \<Rightarrow> string option \<Rightarrow> builder \<Rightarrow> outcome" where
  "skip skipValue subPipelineName b = addToPipeline (skipStage skipValue) subPipelineName b"

definition limit :: "int \<Rightarrow> string option \<Rightarrow> builder \<Rightarrow> outcome" where
  "limit limitValue subPipelineName b = addToPipeline (limitStage limitValue) subPipelineName b"

definition facet :: "json \<Rightarrow> string option \<Rightarrow> builder \<Rightarrow> outcome" where
  "facet facets subPipelineName b = addToPipeline (facetStage facets) subPipelineName b"

section \<open>Calls as data\<close>

text \<open>
  One constructor for each public method, with its arguments; \<open>step\<close> performs the call.
  \<open>after\<close> is the builder a call leaves behind, whether it returned or threw.
\<close>

datatype op =
    MatchEqual string json "string option"
  | MatchRange string string json "string option"
  | MatchLessThan string json "string option"
  | MatchGreaterThan string json "string option"
  | MatchIf string string string "string option"
  | MatchSwitch string "(json \<times> json) list" "string option"
  | Lookup "string list" "string option"
  | Unwind "string list" "string option"
  | Group json "string option"
  | Project json "string option"
  | Sort json "string option"
  | Skip int "string option"
  | Limit int "string option"
  | Facet json "string option"
  | AppendSubPipeline string
  | GetAndRemoveSubPipeline string
  | Build

fun step :: "(string \<Rightarrow> string option) \<Rightarrow> op \<Rightarrow> builder \<Rightarrow> outcome" where
  "step cn (MatchEqual f v t) b = matchEqual f v t b"
| "step cn (MatchRange f operator v t) b = matchRange f operator v t b"
| "step cn (MatchLessThan f v t) b = matchLessThan f v t b"
| "step cn (MatchGreaterThan f v t) b = matchGreaterThan f v t b"
| "step cn (MatchIf c tr fa t) b = matchIf c tr fa t b"
| "step cn (MatchSwitch f cases t) b = matchSwitch f cases t b"
| "step cn (Lookup fs t) b = lookup cn fs t b"
| "step cn (Unwind fs t) b = unwind fs t b"
| "step cn (Group g t) b = group_op g t b"
| "step cn (Project p t) b = project p t b"
| "step cn (Sort s t) b = sort_op s t b"
| "step cn (Skip n t) b = skip n t b"
| "step cn (Limit n t) b = limit n t b"
| "step cn (Facet fa t) b = facet fa t b"
| "step cn (AppendSubPipeline n) b = appendSubPipeline n b"
| "step cn (GetAndRemoveSubPipeline n) b = Inr (snd (getAndRemoveSubPipeline n b))"
| "step cn Build b = Inr b"

definition after :: "(string \<Rightarrow> string option) \<Rightarrow> op \<Rightarrow> builder \<Rightarrow> builder" where
  "after cn c b = state_of (step cn c b)"

text \<open>
  The builders that some sequence of public calls produces from a fresh builder. A call that
  throws can be caught, and the builder is then used further.
\<close>

inductive reachable :: "(string \<Rightarrow> string option) \<Rightarrow> (string \<Rightarrow> string option) \<Rightarrow> builder \<Rightarrow> bool"
  for cn :: "string \<Rightarrow> string option" and m :: "string \<Rightarrow> string option" where
  fresh: "reachable cn m (new_builder m)"
| call: "reachable cn m b \<Longrightarrow> reachable cn m (after cn c b)"

text \<open>
  A chain of calls \<^verbatim>\<open>b.f(...).g(...)\<close> stops at the first call that throws; \<open>perform\<close>
  is the sequence of calls with every exception caught.
\<close>

fun run :: "(string \<Rightarrow> string option) \<Rightarrow> op list \<Rightarrow> builder \<Rightarrow> outcome" where
  "run cn [] b = Inr b"
| "run cn (c # cs) b =
     (case step cn c b of
        Inl err \<Rightarrow> Inl err
      | Inr b' \<Rightarrow> run cn cs b')"

fun perform :: "(string \<Rightarrow> string option) \<Rightarrow> op list \<Rightarrow> builder \<Rightarrow> builder" where
  "perform cn [] b = b"
| "perform cn (c # cs) b = perform cn cs (after cn c b)"

section \<open>Notions used to state the properties\<close>

text \<open>
  The stage list of an entry, where a name without an entry counts as the empty list: what
  the entry holds once \<^verbatim>\<open>addToPipeline\<close> has created it.
\<close>

definition entryOrEmpty :: "builder \<Rightarrow> string \<Rightarrow> stage list" where
  "entryOrEmpty b n = (case subPipeline b n of None \<Rightarrow> [] | Some l \<Rightarrow> l)"

text \<open>
  A target name that \<^verbatim>\<open>addToPipeline\<close> cannot store under: it is not empty, has no entry
  and is the name of an inherited member.
\<close>

definition blocked :: "builder \<Rightarrow> string option \<Rightarrow> bool" where
  "blocked b subPipelineName =
     (case subPipelineName of
        None \<Rightarrow> False
      | Some n \<Rightarrow> n \<noteq> [] \<and> subPipeline b n = None \<and> inherited n)"

text \<open>The builder with the entries of one name, and of three names, deleted.\<close>

definition without :: "string \<Rightarrow> builder \<Rightarrow> builder" where
  "without n b = b\<lparr>subPipeline := (subPipeline b)(n := None)\<rparr>"

definition removed3 :: "string \<Rightarrow> string \<Rightarrow> string \<Rightarrow> builder \<Rightarrow> builder" where
  "removed3 c t f b = b\<lparr>subPipeline := (subPipeline b)(c := None, t := None, f := None)\<rparr>"

text \<open>
  Routing a list of stages, one after the other, with the same target name, up to the first
  one that cannot be routed.
\<close>

fun addAll :: "stage list \<Rightarrow> string option \<Rightarrow> builder \<Rightarrow> outcome" where
  "addAll [] subPipelineName b = Inr b"
| "addAll (s # ss) subPipelineName b =
     (case addToPipeline s subPipelineName b of
        Inl err \<Rightarrow> Inl err
      | Inr b' \<Rightarrow> addAll ss subPipelineName b')"

text \<open>
  The join stages as the specification words them: for each field of the input list, in list
  order, one join stage if the model declares a relation for the field, and nothing
  otherwise. The loop of \<^verbatim>\<open>lookup\<close> gets as far as the fields before the first one whose
  relation names a model that is not registered; \<open>firstMissing\<close> is that model.
\<close>

definition joinStages :: "(string \<Rightarrow> string option) \<Rightarrow> (string \<Rightarrow> string option) \<Rightarrow> string list \<Rightarrow> stage list" where
  "joinStages cn m fs =
     concat (map (\<lambda>field. case m field of
                             None \<Rightarrow> []
                           | Some ref \<Rightarrow>
                               (case cn ref of
                                  None \<Rightarrow> []
                                | Some coll \<Rightarrow> [lookupStage coll field])) fs)"

definition registeredAt :: "(string \<Rightarrow> string option) \<Rightarrow> (string \<Rightarrow> string option) \<Rightarrow> string \<Rightarrow> bool" where
  "registeredAt cn m field = (case m field of None \<Rightarrow> True | Some ref \<Rightarrow> cn ref \<noteq> None)"

definition reached :: "(string \<Rightarrow> string option) \<Rightarrow> (string \<Rightarrow> string option) \<Rightarrow> string list \<Rightarrow> string list" where
  "reached cn m fs = takeWhile (registeredAt cn m) fs"

fun firstMissing :: "(string \<Rightarrow> string option) \<Rightarrow> (string \<Rightarrow> string option) \<Rightarrow> string list \<Rightarrow> string option" where
  "firstMissing cn m [] = None"
| "firstMissing cn m (field # rest) =
     (case m field of
        None \<Rightarrow> firstMissing cn m rest
      | Some ref \<Rightarrow>
          (case cn ref of
             None \<Rightarrow> Some ref
           | Some coll \<Rightarrow> firstMissing cn m rest))"

text \<open>
  The calls that build their stages from their arguments alone (every stage-producing method
  except \<^verbatim>\<open>matchIf\<close>, whose stage is built from the registry), the stages they build, the
  unregistered model that stops a call, and the target name of a call.
\<close>

fun plain :: "op \<Rightarrow> bool" where
  "plain (MatchIf c tr fa t) = False"
| "plain (AppendSubPipeline n) = False"
| "plain (GetAndRemoveSubPipeline n) = False"
| "plain Build = False"
| "plain c = True"

fun stageProducing :: "op \<Rightarrow> bool" where
  "stageProducing (AppendSubPipeline n) = False"
| "stageProducing (GetAndRemoveSubPipeline n) = False"
| "stageProducing Build = False"
| "stageProducing c = True"

fun target :: "op \<Rightarrow> string option" where
  "target (MatchEqual f v t) = t"
| "target (MatchRange f operator v t) = t"
| "target (MatchLessThan f v t) = t"
| "target (MatchGreaterThan f v t) = t"
| "target (MatchIf c tr fa t) = t"
| "target (MatchSwitch f cases t) = t"
| "target (Lookup fs t) = t"
| "target (Unwind fs t) = t"
| "target (Group g t) = t"
| "target (Project p t) = t"
| "target (Sort s t) = t"
| "target (Skip n t) = t"
| "target (Limit n t) = t"
| "target (Facet fa t) = t"
| "target (AppendSubPipeline n) = None"
| "target (GetAndRemoveSubPipeline n) = None"
| "target Build = None"


fun stagesOf :: "(string \<Rightarrow> string option) \<Rightarrow> (string \<Rightarrow> string option) \<Rightarrow> op \<Rightarrow> stage list" where
  "stagesOf cn m (MatchEqual f v t) = [matchStage f v]"
| "stagesOf cn m (MatchRange f operator v t) = [rangeStage f operator v]"
| "stagesOf cn m (MatchLessThan f v t) = [rangeStage f ''$lt'' v]"
| "stagesOf cn m (MatchGreaterThan f v t) = [rangeStage f ''$gt'' v]"
| "stagesOf cn m (MatchSwitch f cases t) = [switchStage f cases]"
| "stagesOf cn m (Lookup fs t) = joinStages cn m (reached cn m fs)"
| "stagesOf cn m (Unwind fs t) = map unwindStage fs"
| "stagesOf cn m (Group g t) = [groupStage g]"
| "stagesOf cn m (Project p t) = [projectStage p]"
| "stagesOf cn m (Sort s t) = [sortStage s]"
| "stagesOf cn m (Skip n t) = [skipStage n]"
| "stagesOf cn m (Limit n t) = [limitStage n]"
| "stagesOf cn m (Facet fa t) = [facetStage fa]"
| "stagesOf cn m c = []"

fun missingRef :: "(string \<Rightarrow> string option) \<Rightarrow> (string \<Rightarrow> string option) \<Rightarrow> op \<Rightarrow> string option" where
  "missingRef cn m (Lookup fs t) = firstMissing cn m fs"
| "missingRef cn m c = None"

text \<open>
  The stages that a call itself constructs in a given builder: those of its arguments, or
  the one conditional stage that \<^verbatim>\<open>matchIf\<close> constructs when none of its three retrievals
  returns \<^verbatim>\<open>null\<close> (the second and third retrieval read the registry as the earlier ones
  have left it).
\<close>

fun constructs :: "(string \<Rightarrow> string option) \<Rightarrow> op \<Rightarrow> builder \<Rightarrow> stage list" where
  "constructs cn (MatchIf x y z t) b =
     (if readEntry b x = Undefined \<or> readEntry (without x b) y = Undefined \<or>
         readEntry (without y (without x b)) z = Undefined
      then []
      else [condStage (branch (readEntry b x)) (branch (readEntry (without x b) y))
              (branch (readEntry (without y (without x b)) z))])"
| "constructs cn c b = stagesOf cn (model b) c"

text \<open>Every entry of the registry holds at least one stage.\<close>

definition nonEmptyEntries :: "builder \<Rightarrow> bool" where
  "nonEmptyEntries b = (\<forall>n l. subPipeline b n = Some l \<longrightarrow> l \<noteq> [])"


section \<open>Example builders\<close>

text \<open>
  A model without references, and the builders of the examples: two filters routed to the
  names \<^verbatim>\<open>ageFilter\<close> and \<^verbatim>\<open>cityFilter\<close>, and a third one routed to
  \<^verbatim>\<open>heightFilter\<close>.
\<close>

definition noRefs :: "string \<Rightarrow> string option" where
  "noRefs field = None"

definition ageCity :: "(string \<Rightarrow> string option) \<Rightarrow> builder" where
  "ageCity m =
     state_of (matchEqual ''city'' (JStr ''New York'') (Some ''cityFilter'')
       (state_of (matchEqual ''age'' (JObj [(''gte'', JNum 30)]) (Some ''ageFilter'')
          (new_builder m))))"

definition ageCityHeight :: builder where
  "ageCityHeight =
     state_of (matchEqual ''height'' (JObj [(''$lte'', JNum 160)]) (Some ''heightFilter'')
       (ageCity noRefs))"

text \<open>
  The model of the README's TypeScript example, whose field \<^verbatim>\<open>friendId\<close> refers to the
  model \<^verbatim>\<open>Friend\<close>; a registry of models in which that model is stored in the collection
  \<^verbatim>\<open>friends\<close>; and the registry of the example itself, in which no model \<^verbatim>\<open>Friend\<close> is
  registered.
\<close>

definition friendRefs :: "string \<Rightarrow> string option" where
  "friendRefs field = (if field = ''friendId'' then Some ''Friend'' else None)"

definition collections :: "string \<Rightarrow> string option" where
  "collections ref = (if ref = ''Friend'' then Some ''friends'' else None)"

definition noModels :: "string \<Rightarrow> string option" where
  "noModels ref = None"

text \<open>Three sequences of calls without target names.\<close>

definition exampleCalls :: "op list" where
  "exampleCalls =
     [MatchEqual ''city'' (JStr ''New York'') None,
      Lookup [''name'', ''friendId''] None,
      Unwind [''friendId''] None,
      Sort (JObj [(''age'', JNum 1)]) None,
      Skip 10 None,
      Limit 5 None]"

definition callsWithMatchIf :: "op list" where
  "callsWithMatchIf =
     [Skip 10 None,
      MatchIf ''ageFilter'' ''cityFilter'' ''heightFilter'' None,
      Limit 5 None]"

definition callsWithInheritedNames :: "op list" where
  "callsWithInheritedNames =
     [Skip 10 None,
      MatchIf ''toString'' ''valueOf'' ''constructor'' None,
      Limit 5 None]"



text \<open>
  An outcome followed by the failure of \<^verbatim>\<open>mongoose.model\<close> for an unregistered name, if
  there is one: an earlier exception stays, and otherwise the call throws at that name.
\<close>

definition thenMissing :: "string option \<Rightarrow> outcome \<Rightarrow> outcome" where
  "thenMissing ref r =
     (case r of
        Inl err \<Rightarrow> Inl err
      | Inr b \<Rightarrow> (case ref of None \<Rightarrow> Inr b | Some name \<Rightarrow> Inl (MissingSchemaError name, b)))"

section \<open>The draft with a routing flag\<close>

text \<open>
  An earlier draft of the class, kept in the repository, gives every stage-producing method
  a flag \<^verbatim>\<open>isSubPipeline\<close> before the optional name. It has the four fields of the class.
  Its \<^verbatim>\<open>matchIf\<close> reads two registry entries without removing them and puts the arrays
  themselves into its stage, so an array can be held by a stage and by the registry at the
  same time, and a later push onto the entry shows in the stage. The draft builder therefore
  has a store of arrays: \<open>arrays\<close> gives the stages of the array at an address,
  \<open>allocated\<close> is the number of arrays created so far and the address of the next one,
  and a registry entry holds the address of its array.
\<close>

record draft =
  model_draft :: "string \<Rightarrow> string option"
  pipeline_draft :: "stage list"
  subPipeline_draft :: "string \<rightharpoonup> nat"
  subPipelineCounter_draft :: nat
  arrays :: "nat \<Rightarrow> stage list"
  allocated :: nat




text \<open>
  The registry of the draft is the same kind of object, read in the same way: a name reads
  as the array of its own entry, as an inherited member, or as \<^verbatim>\<open>undefined\<close>.
\<close>

datatype entry = Absent | ArrayAt nat | Inherited string

definition readEntry_draft :: "draft \<Rightarrow> string \<Rightarrow> entry" where
  "readEntry_draft b name =
     (case subPipeline_draft b name of
        Some a \<Rightarrow> ArrayAt a
      | None \<Rightarrow> if inherited name then Inherited name else Absent)"












text \<open>
  \<^verbatim>\<open>getSubPipeline(subPipelineName)\<close> of the draft returns what the name reads as, or
  \<^verbatim>\<open>null\<close>, and deletes the entry; \<^verbatim>\<open>build()\<close> returns the main pipeline.
\<close>

definition getSubPipeline_draft :: "string \<Rightarrow> draft \<Rightarrow> entry \<times> draft" where
  "getSubPipeline_draft subPipelineName b =
     (case readEntry_draft b subPipelineName of
        Absent \<Rightarrow> (Absent, b)
      | ArrayAt a \<Rightarrow>
          (ArrayAt a, b\<lparr>subPipeline_draft := (subPipeline_draft b)(subPipelineName := None)\<rparr>)
      | Inherited k \<Rightarrow> (Inherited k, b))"

definition build_draft :: "draft \<Rightarrow> stage list" where
  "build_draft b = pipeline_draft b"

subsection \<open>Notions for the draft\<close>


text \<open>The name that the draft generates next.\<close>

definition defaultName :: "draft \<Rightarrow> string" where
  "defaultName b = ''subPipeline_'' @ natToString (subPipelineCounter_draft b)"

text \<open>
  The draft builder after a stage has been stored under the next default name: the counter
  is incremented, and the stage is pushed onto the array of that name, which is a new array
  if the name has no entry.
\<close>

definition withDefaultEntry :: "stage \<Rightarrow> draft \<Rightarrow> draft" where
  "withDefaultEntry s b =
     (case subPipeline_draft b (defaultName b) of
        None \<Rightarrow>
          b\<lparr>subPipelineCounter_draft := increment (subPipelineCounter_draft b),
            subPipeline_draft := (subPipeline_draft b)(defaultName b \<mapsto> allocated b),
            arrays := (arrays b)(allocated b := [s]),
            allocated := allocated b + 1\<rparr>
      | Some a \<Rightarrow>
          b\<lparr>subPipelineCounter_draft := increment (subPipelineCounter_draft b),
            arrays := (arrays b)(a := arrays b a @ [s])\<rparr>)"





section \<open>Basic facts about the helpers\<close>

lemma state_of_simps [simp]: "state_of (Inr b) = b" "state_of (Inl (e, b)) = b"
  by (simp_all add: state_of_def)

lemma raised_simps [simp]: "raised (Inr b) = False" "raised (Inl x) = True"
  by (simp_all add: raised_def)

lemma getAndRemove_snd: "snd (getAndRemoveSubPipeline n b) = without n b"
  by (cases "subPipeline b n")
     (auto simp: getAndRemoveSubPipeline_def readEntry_def without_def fun_upd_idem)

lemma getAndRemove_fst: "fst (getAndRemoveSubPipeline n b) = readEntry b n"
  by (simp add: getAndRemoveSubPipeline_def split: slot.splits)

lemma without_without_without: "without f (without t (without c b)) = removed3 c t f b"
  by (simp add: without_def removed3_def)

lemma matchIf_unfold:
  "matchIf c t f tgt b =
     (if readEntry b c = Undefined \<or> readEntry (without c b) t = Undefined \<or>
         readEntry (without t (without c b)) f = Undefined
      then Inl (Error (notFoundMessage c t f), removed3 c t f b)
      else addToPipeline
             (condStage (branch (readEntry b c)) (branch (readEntry (without c b) t))
                (branch (readEntry (without t (without c b)) f)))
             tgt (removed3 c t f b))"
proof -
  obtain x1 b1 where g1: "getAndRemoveSubPipeline c b = (x1, b1)" by force
  obtain x2 b2 where g2: "getAndRemoveSubPipeline t b1 = (x2, b2)" by force
  obtain x3 b3 where g3: "getAndRemoveSubPipeline f b2 = (x3, b3)" by force
  have x1: "x1 = readEntry b c" and b1: "b1 = without c b"
    using getAndRemove_fst [of c b] getAndRemove_snd [of c b] g1 by simp_all
  have x2: "x2 = readEntry (without c b) t" and b2: "b2 = without t (without c b)"
    using getAndRemove_fst [of t b1] getAndRemove_snd [of t b1] g2 b1 by simp_all
  have x3: "x3 = readEntry (without t (without c b)) f" and b3: "b3 = removed3 c t f b"
    using getAndRemove_fst [of f b2] getAndRemove_snd [of f b2] g3 b2
    by (simp_all add: without_without_without)
  show ?thesis
    unfolding matchIf_def g1 g2 g3 Let_def prod.case
    by (simp add: x1 x2 x3 b3)
qed

lemma addToPipeline_falsy:
  "\<not> truthy t \<Longrightarrow> addToPipeline s t b = Inr (b\<lparr>pipeline := pipeline b @ [s]\<rparr>)"
  by (auto simp: truthy_def addToPipeline_def split: option.splits)

lemma addToPipeline_named:
  "n \<noteq> [] \<Longrightarrow> \<not> blocked b (Some n) \<Longrightarrow>
   addToPipeline s (Some n) b =
     Inr (b\<lparr>subPipeline := (subPipeline b)(n \<mapsto> entryOrEmpty b n @ [s])\<rparr>)"
  by (auto simp: addToPipeline_def entryOrEmpty_def readEntry_def blocked_def
      split: option.splits)

lemma addToPipeline_blocked:
  "blocked b t \<Longrightarrow> addToPipeline s t b = Inl (TypeError, b)"
  by (auto simp: addToPipeline_def readEntry_def blocked_def split: option.splits)

lemma blocked_truthy: "blocked b t \<Longrightarrow> truthy t"
  by (auto simp: blocked_def truthy_def split: option.splits)

lemma addToPipeline_model [simp]: "model (state_of (addToPipeline s t b)) = model b"
  by (auto simp: addToPipeline_def split: option.splits slot.splits)

lemma addToPipeline_counter [simp]:
  "subPipelineCounter (state_of (addToPipeline s t b)) = subPipelineCounter b"
  by (auto simp: addToPipeline_def split: option.splits slot.splits)

lemma addToPipeline_Inr_model: "addToPipeline s t b = Inr b' \<Longrightarrow> model b' = model b"
  using addToPipeline_model [of s t b] by simp

lemma addAll_falsy: "\<not> truthy t \<Longrightarrow> addAll ss t b = Inr (b\<lparr>pipeline := pipeline b @ ss\<rparr>)"
  by (induction ss arbitrary: b) (auto simp: addToPipeline_falsy)

lemma addAll_named:
  "n \<noteq> [] \<Longrightarrow> \<not> blocked b (Some n) \<Longrightarrow>
   addAll ss (Some n) b =
     Inr (if ss = [] then b
          else b\<lparr>subPipeline := (subPipeline b)(n \<mapsto> entryOrEmpty b n @ ss)\<rparr>)"
proof (induction ss arbitrary: b)
  case Nil
  then show ?case by simp
next
  case (Cons s ss)
  let ?b' = "b\<lparr>subPipeline := (subPipeline b)(n \<mapsto> entryOrEmpty b n @ [s])\<rparr>"
  have nb: "\<not> blocked ?b' (Some n)" by (simp add: blocked_def)
  from Cons.prems have a: "addToPipeline s (Some n) b = Inr ?b'"
    by (rule addToPipeline_named)
  have e: "entryOrEmpty ?b' n = entryOrEmpty b n @ [s]"
    by (simp add: entryOrEmpty_def)
  show ?case
    by (simp add: a Cons.IH [OF Cons.prems(1) nb] e)
qed

lemma addAll_blocked:
  "blocked b t \<Longrightarrow> addAll ss t b = (if ss = [] then Inr b else Inl (TypeError, b))"
  by (cases ss) (simp_all add: addToPipeline_blocked)

lemma addAll_model [simp]: "model (state_of (addAll ss t b)) = model b"
proof (induction ss arbitrary: b)
  case Nil
  then show ?case by simp
next
  case (Cons s ss)
  show ?case
  proof (cases "addToPipeline s t b")
    case (Inl err)
    with addToPipeline_model [of s t b] show ?thesis by (cases err) simp
  next
    case (Inr b')
    with addToPipeline_model [of s t b] Cons.IH [of b'] show ?thesis by simp
  qed
qed

lemma reached_Cons_unregistered: "\<not> registeredAt cn m f \<Longrightarrow> reached cn m (f # fs) = []"
  by (simp add: reached_def)

lemma reached_Cons_registered:
  "registeredAt cn m f \<Longrightarrow> reached cn m (f # fs) = f # reached cn m fs"
  by (simp add: reached_def)

lemma joinStages_Nil [simp]: "joinStages cn m [] = []"
  by (simp add: joinStages_def)

lemma joinStages_Cons:
  "joinStages cn m (f # fs) =
     (case m f of
        None \<Rightarrow> []
      | Some ref \<Rightarrow> (case cn ref of None \<Rightarrow> [] | Some coll \<Rightarrow> [lookupStage coll f])) @
     joinStages cn m fs"
  by (simp add: joinStages_def)

lemma firstMissing_None_reached: "firstMissing cn m fs = None \<Longrightarrow> reached cn m fs = fs"
  by (induction fs) (auto simp: reached_def registeredAt_def split: option.splits)

lemma lookup_addAll:
  "lookup cn fs t b =
     thenMissing (firstMissing cn (model b) fs)
       (addAll (joinStages cn (model b) (reached cn (model b) fs)) t b)"
proof (induction fs arbitrary: b)
  case Nil
  then show ?case by (simp add: thenMissing_def reached_def)
next
  case (Cons f fs)
  show ?case
  proof (cases "model b f")
    case None
    then show ?thesis
      by (simp add: Cons.IH reached_Cons_registered registeredAt_def joinStages_Cons)
  next
    case (Some ref)
    show ?thesis
    proof (cases "cn ref")
      case None
      with Some show ?thesis
        by (simp add: thenMissing_def reached_Cons_unregistered registeredAt_def)
    next
      case coll: (Some coll)
      with Some have reg: "registeredAt cn (model b) f"
        by (simp add: registeredAt_def)
      show ?thesis
      proof (cases "addToPipeline (lookupStage coll f) t b")
        case (Inl err)
        with Some coll show ?thesis
          by (simp add: thenMissing_def reached_Cons_registered [OF reg] joinStages_Cons)
      next
        case (Inr b')
        then have "model b' = model b" by (rule addToPipeline_Inr_model)
        with Some coll Inr show ?thesis
          by (simp add: Cons.IH reached_Cons_registered [OF reg] joinStages_Cons)
      qed
    qed
  qed
qed

lemma unwind_addAll: "unwind fs t b = addAll (map unwindStage fs) t b"
  by (induction fs arbitrary: b) (auto split: sum.splits)

lemma step_plain:
  "plain c \<Longrightarrow>
   step cn c b =
     thenMissing (missingRef cn (model b) c) (addAll (stagesOf cn (model b) c) (target c) b)"
  by (cases c)
     (simp_all add: matchEqual_def matchRange_def matchLessThan_def matchGreaterThan_def
        matchSwitch_def lookup_addAll unwind_addAll group_op_def project_def sort_op_def
        skip_def limit_def facet_def thenMissing_def split: sum.splits)

section \<open>What every call preserves\<close>

lemma state_of_thenMissing [simp]: "state_of (thenMissing ref r) = state_of r"
  by (cases r) (auto simp: thenMissing_def split: option.splits)

lemma addAll_preserves:
  assumes "P b" and "\<And>s b. P b \<Longrightarrow> P (state_of (addToPipeline s t b))"
  shows "P (state_of (addAll ss t b))"
  using assms(1)
proof (induction ss arbitrary: b)
  case Nil
  then show ?case by simp
next
  case (Cons s ss)
  from Cons.prems have p: "P (state_of (addToPipeline s t b))" by (rule assms(2))
  show ?case
  proof (cases "addToPipeline s t b")
    case (Inl err)
    with p show ?thesis by simp
  next
    case (Inr b')
    with p Cons.IH [of b'] show ?thesis by simp
  qed
qed

lemma state_of_matchIf:
  "state_of (matchIf c t f tgt b) = removed3 c t f b \<or>
   (\<exists>s. state_of (matchIf c t f tgt b) = state_of (addToPipeline s tgt (removed3 c t f b)))"
  by (auto simp: matchIf_unfold)

lemma after_plain:
  "plain c \<Longrightarrow> after cn c b = state_of (addAll (stagesOf cn (model b) c) (target c) b)"
  by (simp add: after_def step_plain)

lemma after_preserves:
  assumes init: "P b"
    and add: "\<And>s t b. P b \<Longrightarrow> P (state_of (addToPipeline s t b))"
    and del: "\<And>n b. P b \<Longrightarrow> P (without n b)"
    and app: "\<And>n b. P b \<Longrightarrow> P (state_of (appendSubPipeline n b))"
  shows "P (after cn c b)"
proof (cases "plain c")
  case True
  have "P (state_of (addAll (stagesOf cn (model b) c) (target c) b))"
    using init add by (rule addAll_preserves)
  with True show ?thesis by (simp add: after_plain)
next
  case False
  have r3: "P (removed3 c1 c2 c3 b)" for c1 c2 c3
  proof -
    have "P (without c3 (without c2 (without c1 b)))"
      by (intro del init)
    then show ?thesis by (simp add: without_without_without)
  qed
  from False show ?thesis
  proof (cases c)
    case (MatchIf c1 c2 c3 tgt)
    with state_of_matchIf [of c1 c2 c3 tgt b] r3 [of c1 c2 c3] add show ?thesis
      by (auto simp: after_def)
  next
    case (AppendSubPipeline n)
    with init app show ?thesis by (simp add: after_def)
  next
    case (GetAndRemoveSubPipeline n)
    with del [OF init, of n] show ?thesis
      by (simp add: after_def getAndRemove_snd)
  next
    case Build
    with init show ?thesis by (simp add: after_def)
  qed simp_all
qed

lemma reachable_preserves:
  assumes r: "reachable cn m b"
    and init: "P (new_builder m)"
    and add: "\<And>s t b. P b \<Longrightarrow> P (state_of (addToPipeline s t b))"
    and del: "\<And>n b. P b \<Longrightarrow> P (without n b)"
    and app: "\<And>n b. P b \<Longrightarrow> P (state_of (appendSubPipeline n b))"
  shows "P b"
  using r
proof (induction rule: reachable.induct)
  case fresh
  show ?case by (rule init)
next
  case (call b c)
  show ?case
  proof (rule after_preserves [of P])
    show "P b" by (rule call.IH)
  next
    fix s t and b :: builder assume "P b"
    then show "P (state_of (addToPipeline s t b))" by (rule add)
  next
    fix n and b :: builder assume "P b"
    then show "P (without n b)" by (rule del)
  next
    fix n and b :: builder assume "P b"
    then show "P (state_of (appendSubPipeline n b))" by (rule app)
  qed
qed

lemma reachable_nonEmptyEntries: "reachable cn m b \<Longrightarrow> nonEmptyEntries b"
proof (erule reachable_preserves)
  show "nonEmptyEntries (new_builder m)"
    by (simp add: nonEmptyEntries_def new_builder_def)
next
  fix s t and b :: builder assume "nonEmptyEntries b"
  then show "nonEmptyEntries (state_of (addToPipeline s t b))"
    by (auto simp: nonEmptyEntries_def addToPipeline_def readEntry_def
        split: option.splits if_splits)
next
  fix n and b :: builder assume "nonEmptyEntries b"
  then show "nonEmptyEntries (without n b)"
    by (auto simp: nonEmptyEntries_def without_def split: if_splits)
next
  fix n and b :: builder assume "nonEmptyEntries b"
  then show "nonEmptyEntries (state_of (appendSubPipeline n b))"
    by (auto simp: nonEmptyEntries_def appendSubPipeline_def readEntry_def
        split: option.splits if_splits)
qed


lemma reachable_no_inherited_entry:
  "reachable cn m b \<Longrightarrow> \<forall>n. inherited n \<longrightarrow> subPipeline b n = None"
proof (erule reachable_preserves)
  show "\<forall>n. inherited n \<longrightarrow> subPipeline (new_builder m) n = None"
    by (simp add: new_builder_def)
next
  fix s t and b :: builder assume "\<forall>n. inherited n \<longrightarrow> subPipeline b n = None"
  then show "\<forall>n. inherited n \<longrightarrow> subPipeline (state_of (addToPipeline s t b)) n = None"
    by (auto simp: addToPipeline_def readEntry_def split: option.splits if_splits)
next
  fix n and b :: builder assume "\<forall>n. inherited n \<longrightarrow> subPipeline b n = None"
  then show "\<forall>k. inherited k \<longrightarrow> subPipeline (without n b) k = None"
    by (simp add: without_def)
next
  fix n and b :: builder assume "\<forall>n. inherited n \<longrightarrow> subPipeline b n = None"
  then show "\<forall>k. inherited k \<longrightarrow> subPipeline (state_of (appendSubPipeline n b)) k = None"
    by (auto simp: appendSubPipeline_def readEntry_def split: option.splits)
qed

lemma after_model: "model (after cn c b) = model b"
proof -
  define k where "k = model b"
  have "model (after cn c b) = k"
  proof (rule after_preserves [where P = "\<lambda>x. model x = k"])
    show "model b = k" by (simp add: k_def)
  qed (auto simp: appendSubPipeline_def without_def split: slot.splits)
  then show ?thesis by (simp add: k_def)
qed

lemma ageCity_eq:
  "ageCity m = (new_builder m)\<lparr>subPipeline :=
     [''ageFilter'' \<mapsto> [matchStage ''age'' (JObj [(''gte'', JNum 30)])],
      ''cityFilter'' \<mapsto> [matchStage ''city'' (JStr ''New York'')]]\<rparr>"
  by (simp add: ageCity_def matchEqual_def addToPipeline_def readEntry_def inherited_def
      objectPrototype_def new_builder_def)

lemma ageCityHeight_eq:
  "ageCityHeight = (new_builder noRefs)\<lparr>subPipeline :=
     [''ageFilter'' \<mapsto> [matchStage ''age'' (JObj [(''gte'', JNum 30)])],
      ''cityFilter'' \<mapsto> [matchStage ''city'' (JStr ''New York'')],
      ''heightFilter'' \<mapsto> [matchStage ''height'' (JObj [(''$lte'', JNum 160)])]]\<rparr>"
  by (simp add: ageCityHeight_def ageCity_eq matchEqual_def addToPipeline_def readEntry_def
      inherited_def objectPrototype_def new_builder_def)

lemma ageCity_reachable: "reachable cn m (ageCity m)"
proof -
  have "ageCity m =
      after cn (MatchEqual ''city'' (JStr ''New York'') (Some ''cityFilter''))
        (after cn (MatchEqual ''age'' (JObj [(''gte'', JNum 30)]) (Some ''ageFilter''))
           (new_builder m))"
    by (simp add: ageCity_def after_def)
  then show ?thesis
    by (simp only:) (intro reachable.call reachable.fresh)
qed


section \<open>Names inherited from the prototype\<close>

lemma not_inherited_examples [simp]:
  "\<not> inherited ''ageFilter''" "\<not> inherited ''cityFilter''" "\<not> inherited ''heightFilter''"
  "\<not> inherited ''joins''"
  by (simp_all add: inherited_def objectPrototype_def)

lemma inherited_examples [simp]:
  "inherited ''toString''" "inherited ''valueOf''" "inherited ''constructor''"
  by (simp_all add: inherited_def objectPrototype_def)

lemma not_inherited_not_blocked: "\<not> inherited n \<Longrightarrow> \<not> blocked b (Some n)"
  by (simp add: blocked_def)


section \<open>Retrieval, conditional match and splicing on own entries\<close>

lemma matchIf_three_present:
  assumes "c \<noteq> t" and "c \<noteq> f" and "t \<noteq> f"
    and "subPipeline b c = Some cs" and "subPipeline b t = Some ts" and "subPipeline b f = Some fs"
  shows "matchIf c t f tgt b =
           addToPipeline (condStage (JArr cs) (JArr ts) (JArr fs)) tgt (removed3 c t f b)"
  using assms by (simp add: matchIf_unfold readEntry_def without_def branch_def)

lemma appendSubPipeline_cases:
  "(\<forall>l. subPipeline b n = Some l \<longrightarrow>
      appendSubPipeline n b =
        Inr (b\<lparr>pipeline := pipeline b @ l, subPipeline := (subPipeline b)(n := None)\<rparr>)) \<and>
   (subPipeline b n = None \<and> \<not> inherited n \<longrightarrow> appendSubPipeline n b = Inr b) \<and>
   (subPipeline b n = None \<and> inherited n \<longrightarrow> appendSubPipeline n b = Inl (TypeError, b))"
  by (simp add: appendSubPipeline_def readEntry_def)

lemma getAndRemoveSubPipeline_reachable:
  assumes "reachable cn m b"
  shows "(\<forall>n l. subPipeline b n = Some l \<longrightarrow> l \<noteq> []) \<and>
         (\<forall>n. \<not> inherited n \<longrightarrow>
              fst (getAndRemoveSubPipeline n b) = Undefined \<or>
              (\<exists>l. fst (getAndRemoveSubPipeline n b) = Stages l \<and> l \<noteq> []))"
proof -
  from assms have "nonEmptyEntries b" by (rule reachable_nonEmptyEntries)
  then have e: "\<forall>n l. subPipeline b n = Some l \<longrightarrow> l \<noteq> []"
    by (simp add: nonEmptyEntries_def)
  then show ?thesis
    by (auto simp: getAndRemove_fst readEntry_def split: option.splits)
qed

lemma constructs_plain: "plain c \<Longrightarrow> constructs cn c b = stagesOf cn (model b) c"
  by (cases c) simp_all

lemma matchIf_constructs:
  "matchIf x y z t b =
     (if constructs cn (MatchIf x y z t) b = []
      then Inl (Error (notFoundMessage x y z), removed3 x y z b)
      else addAll (constructs cn (MatchIf x y z t) b) t (removed3 x y z b))"
  by (simp add: matchIf_unfold split: sum.splits)

section \<open>What a call adds to the main pipeline\<close>

lemma pipeline_addAll_truthy: "truthy t \<Longrightarrow> pipeline (state_of (addAll ss t b)) = pipeline b"
proof (cases "blocked b t")
  case True
  then show ?thesis by (simp add: addAll_blocked)
next
  case False
  assume "truthy t"
  then obtain n where n: "t = Some n" "n \<noteq> []"
    by (auto simp: truthy_def split: option.splits)
  with False show ?thesis by (simp add: addAll_named)
qed

lemma pipeline_addToPipeline_truthy:
  "truthy t \<Longrightarrow> pipeline (state_of (addToPipeline s t b)) = pipeline b"
  using pipeline_addAll_truthy [of t "[s]" b] by (simp split: sum.splits)



section \<open>The fields a join reaches\<close>

lemma joinStages_length:
  "\<forall>field\<in>set fs. registeredAt cn m field \<Longrightarrow>
   length (joinStages cn m fs) = length (filter (\<lambda>field. m field \<noteq> None) fs)"
  by (induction fs) (auto simp: joinStages_Cons registeredAt_def split: option.splits)

lemma reached_registered: "\<forall>field\<in>set (reached cn m fs). registeredAt cn m field"
  by (auto simp: reached_def dest: set_takeWhileD)

lemma firstMissing_None_iff:
  "firstMissing cn m fs = None \<longleftrightarrow> (\<forall>field\<in>set fs. registeredAt cn m field)"
  by (induction fs) (auto simp: registeredAt_def split: option.splits)

section \<open>Chains of calls without target names\<close>

lemma not_plain_stageProducing:
  "\<not> plain c \<Longrightarrow> stageProducing c \<Longrightarrow> \<exists>x y z t. c = MatchIf x y z t"
  by (cases c) simp_all

lemma readEntry_empty:
  "subPipeline b = Map.empty \<Longrightarrow>
   readEntry b n = (if inherited n then Member n else Undefined)"
  by (simp add: readEntry_def)

lemma without_empty: "subPipeline b = Map.empty \<Longrightarrow> without n b = b"
  by (simp add: without_def)

lemma removed3_empty: "subPipeline b = Map.empty \<Longrightarrow> removed3 x y z b = b"
  by (simp add: removed3_def)

lemma constructs_empty:
  assumes "subPipeline b = Map.empty" and "model b = m"
  shows "constructs cn c b = constructs cn c (new_builder m)"
proof -
  have e: "subPipeline (new_builder m) = Map.empty" and mm: "model (new_builder m) = m"
    by (simp_all add: new_builder_def)
  show ?thesis
  proof (cases "plain c")
    case True
    with assms mm show ?thesis by (simp add: constructs_plain)
  next
    case False
    then show ?thesis
    proof (cases c)
      case (MatchIf x y z t)
      then show ?thesis
        by (simp add: without_empty [OF assms(1)] without_empty [OF e]
            readEntry_empty [OF assms(1)] readEntry_empty [OF e])
    qed (use assms mm in simp_all)
  qed
qed

lemma constructs_matchIf_fresh:
  "constructs cn (MatchIf x y z t) (new_builder m) =
     (if inherited x \<and> inherited y \<and> inherited z
      then [condStage (JMember x) (JMember y) (JMember z)] else [])"
proof -
  have e: "subPipeline (new_builder m) = Map.empty" by (simp add: new_builder_def)
  show ?thesis
    by (simp add: without_empty [OF e] readEntry_empty [OF e] branch_def)
qed

lemma step_no_target_empty:
  assumes "stageProducing c" and "target c = None" and "subPipeline b = Map.empty"
  shows "step cn c b =
           (if raised (step cn c b)
            then Inl (fst (projl (step cn c b)), b\<lparr>pipeline := pipeline b @ constructs cn c b\<rparr>)
            else Inr (b\<lparr>pipeline := pipeline b @ constructs cn c b\<rparr>))"
proof (cases "plain c")
  case True
  with assms(2) show ?thesis
    by (simp add: step_plain addAll_falsy truthy_def thenMissing_def constructs_plain
        split: option.splits)
next
  case False
  with assms(1) obtain x y z t where c: "c = MatchIf x y z t"
    using not_plain_stageProducing by blast
  with assms(2) have t: "t = None" by simp
  show ?thesis
    unfolding c t step.simps matchIf_constructs [where cn = cn]
    by (simp add: removed3_empty [OF assms(3)] addAll_falsy truthy_def del: constructs.simps)
qed

lemma after_no_target_empty:
  assumes "stageProducing c" and "target c = None" and "subPipeline b = Map.empty"
  shows "after cn c b = b\<lparr>pipeline := pipeline b @ constructs cn c b\<rparr>"
  unfolding after_def
  by (subst step_no_target_empty [OF assms]) simp

lemma raised_no_target_empty:
  assumes "stageProducing c" and "target c = None"
    and "subPipeline b = Map.empty" and "model b = m"
  shows "raised (step cn c b) = raised (step cn c (new_builder m))"
proof (cases "plain c")
  case True
  with assms(2,4) show ?thesis
    by (simp add: step_plain addAll_falsy truthy_def thenMissing_def new_builder_def
        split: option.splits)
next
  case False
  with assms(1) obtain x y z t where c: "c = MatchIf x y z t"
    using not_plain_stageProducing by blast
  with assms(2) have t: "t = None" by simp
  have k: "constructs cn (MatchIf x y z None) b = constructs cn (MatchIf x y z None) (new_builder m)"
    using assms(3,4) by (rule constructs_empty)
  show ?thesis
    unfolding c t step.simps matchIf_constructs [where cn = cn] k
    by (simp add: addAll_falsy truthy_def del: constructs.simps)
qed

lemma perform_no_target:
  assumes "\<forall>c\<in>set cs. stageProducing c \<and> target c = None"
    and "subPipeline b = Map.empty" and "model b = m"
  shows "perform cn cs b =
           b\<lparr>pipeline := pipeline b @ concat (map (\<lambda>c. constructs cn c (new_builder m)) cs)\<rparr>"
  using assms
proof (induction cs arbitrary: b)
  case Nil
  then show ?case by simp
next
  case (Cons c cs)
  then have c: "stageProducing c" "target c = None"
    and rest: "\<forall>c\<in>set cs. stageProducing c \<and> target c = None"
    by simp_all
  let ?b' = "b\<lparr>pipeline := pipeline b @ constructs cn c b\<rparr>"
  have a: "after cn c b = ?b'"
    using c Cons.prems(2) by (rule after_no_target_empty)
  have k: "constructs cn c b = constructs cn c (new_builder m)"
    using Cons.prems(2,3) by (rule constructs_empty)
  have "subPipeline ?b' = Map.empty" "model ?b' = m"
    using Cons.prems(2,3) by simp_all
  from Cons.IH [OF rest this] show ?case
    by (simp add: a k)
qed

lemma run_no_target:
  assumes "\<forall>c\<in>set cs. stageProducing c \<and> target c = None"
    and "\<forall>c\<in>set cs. \<not> raised (step cn c (new_builder m))"
    and "subPipeline b = Map.empty" and "model b = m"
  shows "run cn cs b =
           Inr (b\<lparr>pipeline := pipeline b @ concat (map (\<lambda>c. constructs cn c (new_builder m)) cs)\<rparr>)"
  using assms
proof (induction cs arbitrary: b)
  case Nil
  then show ?case by simp
next
  case (Cons c cs)
  then have c: "stageProducing c" "target c = None"
    and rest: "\<forall>c\<in>set cs. stageProducing c \<and> target c = None"
    and nr: "\<not> raised (step cn c (new_builder m))"
    and rest2: "\<forall>c\<in>set cs. \<not> raised (step cn c (new_builder m))"
    by simp_all
  let ?b' = "b\<lparr>pipeline := pipeline b @ constructs cn c b\<rparr>"
  have "\<not> raised (step cn c b)"
    using nr raised_no_target_empty [OF c Cons.prems(3,4)] by simp
  with step_no_target_empty [OF c Cons.prems(3), of cn]
  have s: "step cn c b = Inr ?b'" by simp
  have k: "constructs cn c b = constructs cn c (new_builder m)"
    using Cons.prems(3,4) by (rule constructs_empty)
  have "subPipeline ?b' = Map.empty" "model ?b' = m"
    using Cons.prems(3,4) by simp_all
  from Cons.IH [OF rest rest2 this] show ?case
    by (simp add: s k)
qed

lemma run_is_perform_of_prefix:
  "\<exists>k\<le>length cs. state_of (run cn cs b) = perform cn (take k cs) b"
proof (induction cs arbitrary: b)
  case Nil
  then show ?case by simp
next
  case (Cons c cs)
  show ?case
  proof (cases "step cn c b")
    case (Inl err)
    then have "state_of (run cn (c # cs) b) = perform cn (take 1 (c # cs)) b"
      by (cases err) (simp add: after_def)
    then show ?thesis
      by (intro exI [of _ 1]) simp
  next
    case (Inr b')
    from Cons.IH [of b'] obtain k where k: "k \<le> length cs"
      "state_of (run cn cs b') = perform cn (take k cs) b'"
      by blast
    with Inr have "state_of (run cn (c # cs) b) = perform cn (take (Suc k) (c # cs)) b"
      by (simp add: after_def)
    with k(1) show ?thesis
      by (intro exI [of _ "Suc k"]) simp
  qed
qed

section \<open>Decimal digits and generated names\<close>








section \<open>The private generator at its limit\<close>





section \<open>Default names in the draft\<close>







lemma withDefaultEntry_model [simp]: "model_draft (withDefaultEntry s b) = model_draft b"
  by (simp add: withDefaultEntry_def split: option.splits)

lemma withDefaultEntry_pipeline [simp]:
  "pipeline_draft (withDefaultEntry s b) = pipeline_draft b"
  by (simp add: withDefaultEntry_def split: option.splits)









section \<open>Conditional match\<close>

text \<open>
  Claim C1 says that \<^verbatim>\<open>matchIf\<close> with at least one of its three names absent from the
  registry raises the error and leaves both the main pipeline and the registry as they were.
  The registry does not stay as it was: \<^verbatim>\<open>matchIf\<close> retrieves and removes the three
  entries before it tests them. With \<^verbatim>\<open>ageFilter\<close> and \<^verbatim>\<open>cityFilter\<close> present and
  \<^verbatim>\<open>heightFilter\<close> absent the call raises, and \<^verbatim>\<open>ageFilter\<close> is gone afterwards. Nor does
  every absent name make the call raise: on a fresh builder, where the registry has no entry,
  \<^verbatim>\<open>matchIf("toString", "valueOf", "constructor")\<close> reads three members that the registry
  object inherits, returns normally and pushes a conditional stage made of them.
\<close>

theorem matchIf_missing_consumes_counterexample:
  "subPipeline (ageCity noRefs) ''heightFilter'' = None \<and>
   raised (matchIf ''ageFilter'' ''cityFilter'' ''heightFilter'' None (ageCity noRefs)) \<and>
   subPipeline (ageCity noRefs) ''ageFilter'' = Some [matchStage ''age'' (JObj [(''gte'', JNum 30)])] \<and>
   subPipeline (state_of (matchIf ''ageFilter'' ''cityFilter'' ''heightFilter'' None (ageCity noRefs)))
     ''ageFilter'' = None \<and>
   subPipeline (new_builder noRefs) ''toString'' = None \<and>
   subPipeline (new_builder noRefs) ''valueOf'' = None \<and>
   subPipeline (new_builder noRefs) ''constructor'' = None \<and>
   matchIf ''toString'' ''valueOf'' ''constructor'' None (new_builder noRefs) =
     Inr ((new_builder noRefs)\<lparr>pipeline :=
        [condStage (JMember ''toString'') (JMember ''valueOf'') (JMember ''constructor'')]\<rparr>)"
proof -
  have a: "raised (matchIf ''ageFilter'' ''cityFilter'' ''heightFilter'' None (ageCity noRefs)) \<and>
    subPipeline (state_of (matchIf ''ageFilter'' ''cityFilter'' ''heightFilter'' None (ageCity noRefs)))
     ''ageFilter'' = None"
    by (simp add: matchIf_unfold ageCity_eq readEntry_def without_def removed3_def)
  have b: "matchIf ''toString'' ''valueOf'' ''constructor'' None (new_builder noRefs) =
     Inr ((new_builder noRefs)\<lparr>pipeline :=
        [condStage (JMember ''toString'') (JMember ''valueOf'') (JMember ''constructor'')]\<rparr>)"
    by (simp add: matchIf_unfold readEntry_def without_def removed3_def new_builder_def
        branch_def addToPipeline_def)
  from a b show ?thesis
    by (simp add: ageCity_eq) (simp add: new_builder_def)
qed

text \<open>
  Claim C1, as the code has it: if at least one of the three names has no entry and is not
  the name of an inherited member, \<^verbatim>\<open>matchIf\<close> raises the error whose message lists the
  three names, whatever the target name is. The builder it leaves behind differs from the
  one before the call only in the registry, where the entries of the three names are gone:
  the main pipeline is as it was, no stage has been emitted, and every entry under another
  name is as it was.
\<close>

theorem matchIf_missing_raises:
  assumes "(subPipeline b c = None \<and> \<not> inherited c) \<or>
           (subPipeline b t = None \<and> \<not> inherited t) \<or>
           (subPipeline b f = None \<and> \<not> inherited f)"
  shows "matchIf c t f tgt b =
           Inl (Error (notFoundMessage c t f),
                b\<lparr>subPipeline := (subPipeline b)(c := None, t := None, f := None)\<rparr>)"
proof -
  from assms have "readEntry b c = Undefined \<or> readEntry (without c b) t = Undefined \<or>
      readEntry (without t (without c b)) f = Undefined"
    by (auto simp: readEntry_def without_def)
  then show ?thesis
    by (simp add: matchIf_unfold removed3_def)
qed

theorem matchIf_missing_raises_witness:
  "subPipeline (ageCity noRefs) ''heightFilter'' = None \<and> \<not> inherited ''heightFilter'' \<and>
   matchIf ''ageFilter'' ''cityFilter'' ''heightFilter'' None (ageCity noRefs) =
     Inl (Error ''One or more sub-pipelines not found: ageFilter, cityFilter, heightFilter'',
          (ageCity noRefs)\<lparr>subPipeline :=
             (subPipeline (ageCity noRefs))
               (''ageFilter'' := None, ''cityFilter'' := None, ''heightFilter'' := None)\<rparr>)"
proof -
  have absent: "subPipeline (ageCity noRefs) ''heightFilter'' = None \<and> \<not> inherited ''heightFilter''"
    by (simp add: ageCity_eq)
  show ?thesis
    using absent
      matchIf_missing_raises [of "ageCity noRefs" "''ageFilter''" "''cityFilter''" "''heightFilter''" None]
    by (simp add: notFoundMessage_def)
qed

text \<open>
  Claim C2 says that \<^verbatim>\<open>matchIf\<close> with three distinct names that all have an entry removes
  the three entries and appends exactly one stage to the target location, the entry of the
  target name if one is given. The code does not do so for a target name that the registry
  object inherits: with the entries \<^verbatim>\<open>ageFilter\<close>, \<^verbatim>\<open>cityFilter\<close> and \<^verbatim>\<open>heightFilter\<close>
  present, \<^verbatim>\<open>matchIf("ageFilter", "cityFilter", "heightFilter", "constructor")\<close> removes
  the three entries and then throws a \<^verbatim>\<open>TypeError\<close> in \<^verbatim>\<open>addToPipeline\<close>, where
  \<^verbatim>\<open>this.subPipeline["constructor"]\<close> reads as the inherited function; the stage is stored
  nowhere, and the builder is left with an empty main pipeline and an empty registry.
\<close>

theorem matchIf_inherited_target_throws:
  "subPipeline ageCityHeight ''ageFilter'' = Some [matchStage ''age'' (JObj [(''gte'', JNum 30)])] \<and>
   subPipeline ageCityHeight ''cityFilter'' = Some [matchStage ''city'' (JStr ''New York'')] \<and>
   subPipeline ageCityHeight ''heightFilter'' =
     Some [matchStage ''height'' (JObj [(''$lte'', JNum 160)])] \<and>
   matchIf ''ageFilter'' ''cityFilter'' ''heightFilter'' (Some ''constructor'') ageCityHeight =
     Inl (TypeError, new_builder noRefs) \<and>
   pipeline (new_builder noRefs) = [] \<and>
   dom (subPipeline (new_builder noRefs)) = {}"
proof -
  have gone: "removed3 ''ageFilter'' ''cityFilter'' ''heightFilter'' ageCityHeight = new_builder noRefs"
    by (simp add: removed3_def ageCityHeight_eq new_builder_def)
  have blk: "blocked (new_builder noRefs) (Some ''constructor'')"
    by (simp add: blocked_def new_builder_def)
  have "matchIf ''ageFilter'' ''cityFilter'' ''heightFilter'' (Some ''constructor'') ageCityHeight =
     Inl (TypeError, new_builder noRefs)"
    by (subst matchIf_three_present [where cs = "[matchStage ''age'' (JObj [(''gte'', JNum 30)])]"
          and ts = "[matchStage ''city'' (JStr ''New York'')]"
          and fs = "[matchStage ''height'' (JObj [(''$lte'', JNum 160)])]"])
       (simp_all add: ageCityHeight_eq gone [unfolded ageCityHeight_eq] addToPipeline_blocked [OF blk])
  then show ?thesis
    by (simp add: ageCityHeight_eq) (simp add: new_builder_def)
qed

text \<open>
  Claim C3 takes the call sequence \<^verbatim>\<open>matchEqual("age", {gte: 30}, "ageFilter")\<close>,
  \<^verbatim>\<open>matchEqual("city", "New York", "cityFilter")\<close>,
  \<^verbatim>\<open>matchIf("ageFilter", "cityFilter", "ageFilter")\<close> on a fresh builder and says that it
  succeeds and puts one conditional stage into the main pipeline. It does not: the first
  retrieval removes \<^verbatim>\<open>ageFilter\<close>, so the third retrieval finds nothing, the call raises,
  and the main pipeline stays empty.
\<close>

theorem duplicate_name_example_counterexample:
  "raised (matchIf ''ageFilter'' ''cityFilter'' ''ageFilter'' None (ageCity noRefs)) \<and>
   build (state_of (matchIf ''ageFilter'' ''cityFilter'' ''ageFilter'' None (ageCity noRefs))) = []"
  by (simp add: matchIf_unfold ageCity_eq readEntry_def without_def inherited_def
      objectPrototype_def removed3_def build_def new_builder_def)

text \<open>
  Claim C3, as the code has it: for every model, the \<^verbatim>\<open>matchIf\<close> call of that sequence
  raises the error that lists the three names; the builder it leaves behind is equal to a
  fresh builder, so the main pipeline holds no stage and both \<^verbatim>\<open>ageFilter\<close> and
  \<^verbatim>\<open>cityFilter\<close> are absent from the registry.
\<close>

theorem duplicate_name_example_raises:
  "matchIf ''ageFilter'' ''cityFilter'' ''ageFilter'' None (ageCity m) =
     Inl (Error ''One or more sub-pipelines not found: ageFilter, cityFilter, ageFilter'',
          new_builder m) \<and>
   build (state_of (matchIf ''ageFilter'' ''cityFilter'' ''ageFilter'' None (ageCity m))) = [] \<and>
   subPipeline (state_of (matchIf ''ageFilter'' ''cityFilter'' ''ageFilter'' None (ageCity m)))
     ''ageFilter'' = None \<and>
   subPipeline (state_of (matchIf ''ageFilter'' ''cityFilter'' ''ageFilter'' None (ageCity m)))
     ''cityFilter'' = None"
proof -
  have gone: "removed3 ''ageFilter'' ''cityFilter'' ''ageFilter'' (ageCity m) = new_builder m"
    by (simp add: removed3_def ageCity_eq new_builder_def)
  have third: "readEntry (without ''cityFilter'' (without ''ageFilter'' (ageCity m))) ''ageFilter''
      = Undefined"
    by (simp add: readEntry_def without_def ageCity_eq inherited_def objectPrototype_def)
  have r: "matchIf ''ageFilter'' ''cityFilter'' ''ageFilter'' None (ageCity m) =
     Inl (Error ''One or more sub-pipelines not found: ageFilter, cityFilter, ageFilter'',
          new_builder m)"
    unfolding matchIf_unfold gone
    by (simp add: third notFoundMessage_def)
  show ?thesis
    unfolding r by (simp add: build_def new_builder_def)
qed

section \<open>The default name counter\<close>




section \<open>Routing, splicing and joins\<close>

text \<open>
  Claim C5: a chain of stage-producing calls, each without a target name, on a fresh
  builder. The stages a call constructs are those it builds from its arguments; for
  \<^verbatim>\<open>lookup\<close> these are the join stages of the fields up to the first one whose referenced
  model is not registered, and for \<^verbatim>\<open>matchIf\<close>, which reads the registry, the one
  conditional stage if its three names can be read and none if it raises. When a caller
  makes every call of the chain, also after one of them has raised, \<^verbatim>\<open>build()\<close> returns
  exactly the stages that the calls constructed, in call order. A chain that stops at the
  first call that raises has made some first calls of the chain, and \<^verbatim>\<open>build()\<close> returns
  exactly their stages in call order; if no call raises, the chain returns normally with the
  stages of all calls. On the fresh builder the registry is empty, so \<^verbatim>\<open>matchIf\<close>
  constructs a stage only from three names of inherited members.
\<close>

theorem build_returns_stages_in_call_order:
  assumes "\<forall>c\<in>set cs. stageProducing c \<and> target c = None"
  shows "build (perform cn cs (new_builder m)) =
           concat (map (\<lambda>c. constructs cn c (new_builder m)) cs) \<and>
         (\<exists>k\<le>length cs.
            state_of (run cn cs (new_builder m)) = perform cn (take k cs) (new_builder m) \<and>
            build (state_of (run cn cs (new_builder m))) =
              concat (map (\<lambda>c. constructs cn c (new_builder m)) (take k cs))) \<and>
         ((\<forall>c\<in>set cs. \<not> raised (step cn c (new_builder m))) \<longrightarrow>
            run cn cs (new_builder m) =
              Inr ((new_builder m)\<lparr>pipeline :=
                     concat (map (\<lambda>c. constructs cn c (new_builder m)) cs)\<rparr>)) \<and>
         (\<forall>c\<in>set cs. plain c \<longrightarrow>
            constructs cn c (new_builder m) = stagesOf cn m c \<and>
            raised (step cn c (new_builder m)) = (missingRef cn m c \<noteq> None)) \<and>
         (\<forall>x y z. constructs cn (MatchIf x y z None) (new_builder m) =
            (if inherited x \<and> inherited y \<and> inherited z
             then [condStage (JMember x) (JMember y) (JMember z)] else []))"
proof (intro conjI impI allI ballI)
  have e: "subPipeline (new_builder m) = Map.empty" and mm: "model (new_builder m) = m"
    and p0: "pipeline (new_builder m) = []"
    by (simp_all add: new_builder_def)
  have pf: "perform cn ds (new_builder m) =
      (new_builder m)\<lparr>pipeline := concat (map (\<lambda>c. constructs cn c (new_builder m)) ds)\<rparr>"
    if "\<forall>c\<in>set ds. stageProducing c \<and> target c = None" for ds
    using perform_no_target [OF that e mm, of cn] by (simp add: p0)
  show "build (perform cn cs (new_builder m)) =
      concat (map (\<lambda>c. constructs cn c (new_builder m)) cs)"
    by (simp add: pf [OF assms] build_def)
  show "\<exists>k\<le>length cs.
            state_of (run cn cs (new_builder m)) = perform cn (take k cs) (new_builder m) \<and>
            build (state_of (run cn cs (new_builder m))) =
              concat (map (\<lambda>c. constructs cn c (new_builder m)) (take k cs))"
  proof -
    from run_is_perform_of_prefix [of cs cn "new_builder m"] obtain k where k: "k \<le> length cs"
      "state_of (run cn cs (new_builder m)) = perform cn (take k cs) (new_builder m)"
      by blast
    have "\<forall>c\<in>set (take k cs). stageProducing c \<and> target c = None"
      using assms by (auto dest: in_set_takeD)
    from pf [OF this] k show ?thesis
      by (intro exI [of _ k]) (simp add: build_def)
  qed
  {
    assume "\<forall>c\<in>set cs. \<not> raised (step cn c (new_builder m))"
    from run_no_target [OF assms this e mm]
    show "run cn cs (new_builder m) =
              Inr ((new_builder m)\<lparr>pipeline :=
                     concat (map (\<lambda>c. constructs cn c (new_builder m)) cs)\<rparr>)"
      by (simp add: p0)
  }
  {
    fix c assume "c \<in> set cs" and p: "plain c"
    with assms have t: "target c = None" by simp
    from p show "constructs cn c (new_builder m) = stagesOf cn m c"
      by (simp add: constructs_plain mm)
    from p t show "raised (step cn c (new_builder m)) = (missingRef cn m c \<noteq> None)"
      by (simp add: step_plain addAll_falsy truthy_def thenMissing_def mm split: option.splits)
  }
  {
    fix x y z
    show "constructs cn (MatchIf x y z None) (new_builder m) =
            (if inherited x \<and> inherited y \<and> inherited z
             then [condStage (JMember x) (JMember y) (JMember z)] else [])"
      by (rule constructs_matchIf_fresh)
  }
qed

theorem build_returns_stages_in_call_order_witness:
  "build (perform collections exampleCalls (new_builder friendRefs)) =
     [JObj [(''$match'', JObj [(''city'', JStr ''New York'')])],
      JObj [(''$lookup'', JObj [(''from'', JStr ''friends''), (''localField'', JStr ''friendId''),
                               (''foreignField'', JStr ''_id''), (''as'', JStr ''friendIdDetails'')])],
      JObj [(''$unwind'', JStr ''$friendIdDetails'')],
      JObj [(''$sort'', JObj [(''age'', JNum 1)])],
      JObj [(''$skip'', JNum 10)],
      JObj [(''$limit'', JNum 5)]] \<and>
   build (perform collections callsWithMatchIf (new_builder noRefs)) =
     [JObj [(''$skip'', JNum 10)], JObj [(''$limit'', JNum 5)]] \<and>
   run collections callsWithInheritedNames (new_builder noRefs) =
     Inr ((new_builder noRefs)\<lparr>pipeline :=
        [JObj [(''$skip'', JNum 10)],
         condStage (JMember ''toString'') (JMember ''valueOf'') (JMember ''constructor''),
         JObj [(''$limit'', JNum 5)]]\<rparr>)"
proof -
  have h1: "\<forall>c\<in>set exampleCalls. stageProducing c \<and> target c = None"
    by (simp add: exampleCalls_def)
  have h2: "\<forall>c\<in>set callsWithMatchIf. stageProducing c \<and> target c = None"
    by (simp add: callsWithMatchIf_def)
  have h3: "\<forall>c\<in>set callsWithInheritedNames. stageProducing c \<and> target c = None"
    by (simp add: callsWithInheritedNames_def)
  have e: "subPipeline (new_builder noRefs) = Map.empty" "model (new_builder noRefs) = noRefs"
    "model (new_builder friendRefs) = friendRefs"
    by (simp_all add: new_builder_def)
  have k1: "concat (map (\<lambda>c. constructs collections c (new_builder friendRefs)) exampleCalls) =
     [JObj [(''$match'', JObj [(''city'', JStr ''New York'')])],
      JObj [(''$lookup'', JObj [(''from'', JStr ''friends''), (''localField'', JStr ''friendId''),
                               (''foreignField'', JStr ''_id''), (''as'', JStr ''friendIdDetails'')])],
      JObj [(''$unwind'', JStr ''$friendIdDetails'')],
      JObj [(''$sort'', JObj [(''age'', JNum 1)])],
      JObj [(''$skip'', JNum 10)],
      JObj [(''$limit'', JNum 5)]]"
    by (simp add: exampleCalls_def e joinStages_def reached_def registeredAt_def friendRefs_def
        collections_def matchStage_def lookupStage_def unwindStage_def sortStage_def
        skipStage_def limitStage_def)
  have k2: "concat (map (\<lambda>c. constructs collections c (new_builder noRefs)) callsWithMatchIf) =
     [JObj [(''$skip'', JNum 10)], JObj [(''$limit'', JNum 5)]]"
    by (simp add: callsWithMatchIf_def e constructs_matchIf_fresh skipStage_def limitStage_def
        del: constructs.simps(1))
  have k3: "concat (map (\<lambda>c. constructs collections c (new_builder noRefs))
        callsWithInheritedNames) =
     [JObj [(''$skip'', JNum 10)],
      condStage (JMember ''toString'') (JMember ''valueOf'') (JMember ''constructor''),
      JObj [(''$limit'', JNum 5)]]"
    by (simp add: callsWithInheritedNames_def e constructs_matchIf_fresh skipStage_def
        limitStage_def del: constructs.simps(1))
  have nr: "\<forall>c\<in>set callsWithInheritedNames. \<not> raised (step collections c (new_builder noRefs))"
    by (simp add: callsWithInheritedNames_def skip_def limit_def addToPipeline_def
        matchIf_unfold readEntry_def without_def new_builder_def)
  from build_returns_stages_in_call_order [OF h1, of collections friendRefs]
  have a: "build (perform collections exampleCalls (new_builder friendRefs)) =
      concat (map (\<lambda>c. constructs collections c (new_builder friendRefs)) exampleCalls)"
    by (rule conjunct1)
  from build_returns_stages_in_call_order [OF h2, of collections noRefs]
  have b: "build (perform collections callsWithMatchIf (new_builder noRefs)) =
      concat (map (\<lambda>c. constructs collections c (new_builder noRefs)) callsWithMatchIf)"
    by (rule conjunct1)
  from build_returns_stages_in_call_order [OF h3, of collections noRefs] nr
  have c: "run collections callsWithInheritedNames (new_builder noRefs) =
      Inr ((new_builder noRefs)\<lparr>pipeline :=
         concat (map (\<lambda>c. constructs collections c (new_builder noRefs))
           callsWithInheritedNames)\<rparr>)"
    by blast
  from a b c show ?thesis
    unfolding k1 k2 k3 by (intro conjI)
qed




text \<open>
  Claim C7 says that \<^verbatim>\<open>appendSubPipeline(name)\<close> without an entry for the name is a
  silent no-op. The code is not for a name that the registry object inherits: on a fresh
  builder, which has no entry at all, \<^verbatim>\<open>appendSubPipeline("toString")\<close> passes the test of
  \<^verbatim>\<open>this.subPipeline[name]\<close> and throws a \<^verbatim>\<open>TypeError\<close> when it spreads the inherited
  function into \<^verbatim>\<open>push\<close>.
\<close>

theorem appendSubPipeline_inherited_name_throws:
  "subPipeline (new_builder noRefs) ''toString'' = None \<and>
   appendSubPipeline ''toString'' (new_builder noRefs) = Inl (TypeError, new_builder noRefs)"
  by (simp add: appendSubPipeline_def readEntry_def new_builder_def)

text \<open>
  Claim C8 says that \<^verbatim>\<open>lookup\<close> emits one join stage for every field with a declared
  relation and is never an error. It fails when the model that a relation names is not
  registered: with \<^verbatim>\<open>friendId\<close> declared as a reference to \<^verbatim>\<open>Friend\<close> and no such model
  registered, \<^verbatim>\<open>lookup(["friendId"])\<close> fails with a \<^verbatim>\<open>MissingSchemaError\<close> and emits
  nothing. With the model registered and the target name \<^verbatim>\<open>constructor\<close>, the call fails
  with a \<^verbatim>\<open>TypeError\<close> at the first join stage.
\<close>

theorem lookup_unregistered_ref_counterexample:
  "friendRefs ''friendId'' = Some ''Friend'' \<and>
   lookup noModels [''friendId''] None (new_builder friendRefs) =
     Inl (MissingSchemaError ''Friend'', new_builder friendRefs) \<and>
   lookup collections [''friendId''] (Some ''constructor'') (new_builder friendRefs) =
     Inl (TypeError, new_builder friendRefs)"
  by (simp add: friendRefs_def noModels_def collections_def new_builder_def addToPipeline_def
      readEntry_def)

text \<open>
  Claim C8, as the code has it, for a target name that is not the name of an inherited
  member. The join stages of a field list are, going through the fields in list order, one
  \<^verbatim>\<open>$lookup\<close> stage for a field with a declared relation, whose \<^verbatim>\<open>as\<close> is the field name
  followed by \<^verbatim>\<open>Details\<close>, and nothing for a field without one. If the model of every
  declared relation is registered, \<^verbatim>\<open>lookup\<close> returns normally having routed exactly these
  stages, as many as there are fields with a relation, to the main pipeline or to the named
  entry, in that order. Otherwise it fails with the \<^verbatim>\<open>MissingSchemaError\<close> of the first
  field whose model is not registered, having routed exactly the join stages of the fields
  before that one. A field without a declared relation is skipped in either case.
\<close>

theorem lookup_emits_one_stage_per_relation_field:
  assumes "\<forall>n. tgt = Some n \<longrightarrow> \<not> inherited n"
  shows
  "joinStages cn (model b) fs =
     concat (map (\<lambda>field. case model b field of
                             None \<Rightarrow> []
                           | Some ref \<Rightarrow>
                               (case cn ref of
                                  None \<Rightarrow> []
                                | Some coll \<Rightarrow>
                                    [JObj [(''$lookup'',
                                       JObj [(''from'', JStr coll),
                                             (''localField'', JStr field),
                                             (''foreignField'', JStr ''_id''),
                                             (''as'', JStr (field @ ''Details''))])]])) fs) \<and>
   (firstMissing cn (model b) fs = None \<longrightarrow>
      length (joinStages cn (model b) fs) = length (filter (\<lambda>field. model b field \<noteq> None) fs) \<and>
      (\<not> truthy tgt \<longrightarrow>
         lookup cn fs tgt b = Inr (b\<lparr>pipeline := pipeline b @ joinStages cn (model b) fs\<rparr>)) \<and>
      (\<forall>n. tgt = Some n \<and> n \<noteq> [] \<longrightarrow>
         lookup cn fs tgt b =
           Inr (if joinStages cn (model b) fs = [] then b
                else b\<lparr>subPipeline :=
                       (subPipeline b)(n \<mapsto> entryOrEmpty b n @ joinStages cn (model b) fs)\<rparr>))) \<and>
   (\<forall>ref. firstMissing cn (model b) fs = Some ref \<longrightarrow>
      (\<not> truthy tgt \<longrightarrow>
         lookup cn fs tgt b =
           Inl (MissingSchemaError ref,
                b\<lparr>pipeline := pipeline b @ joinStages cn (model b) (reached cn (model b) fs)\<rparr>)) \<and>
      (\<forall>n. tgt = Some n \<and> n \<noteq> [] \<longrightarrow>
         lookup cn fs tgt b =
           Inl (MissingSchemaError ref,
                if joinStages cn (model b) (reached cn (model b) fs) = [] then b
                else b\<lparr>subPipeline :=
                       (subPipeline b)(n \<mapsto> entryOrEmpty b n @
                          joinStages cn (model b) (reached cn (model b) fs))\<rparr>)))"
proof (intro conjI impI allI)
  show "joinStages cn (model b) fs =
     concat (map (\<lambda>field. case model b field of
                             None \<Rightarrow> []
                           | Some ref \<Rightarrow>
                               (case cn ref of
                                  None \<Rightarrow> []
                                | Some coll \<Rightarrow>
                                    [JObj [(''$lookup'',
                                       JObj [(''from'', JStr coll),
                                             (''localField'', JStr field),
                                             (''foreignField'', JStr ''_id''),
                                             (''as'', JStr (field @ ''Details''))])]])) fs)"
    unfolding joinStages_def lookupStage_def by (rule refl)
next
  assume none: "firstMissing cn (model b) fs = None"
  then show "length (joinStages cn (model b) fs) =
      length (filter (\<lambda>field. model b field \<noteq> None) fs)"
    by (simp add: joinStages_length firstMissing_None_iff)
  {
    assume "\<not> truthy tgt"
    then show "lookup cn fs tgt b = Inr (b\<lparr>pipeline := pipeline b @ joinStages cn (model b) fs\<rparr>)"
      by (simp add: lookup_addAll none firstMissing_None_reached [OF none] addAll_falsy
          thenMissing_def)
  }
  {
    fix n assume "tgt = Some n \<and> n \<noteq> []"
    with assms have "tgt = Some n" "n \<noteq> []" "\<not> blocked b (Some n)"
      by (simp_all add: not_inherited_not_blocked)
    then show "lookup cn fs tgt b =
           Inr (if joinStages cn (model b) fs = [] then b
                else b\<lparr>subPipeline :=
                       (subPipeline b)(n \<mapsto> entryOrEmpty b n @ joinStages cn (model b) fs)\<rparr>)"
      by (simp add: lookup_addAll none firstMissing_None_reached [OF none] addAll_named
          thenMissing_def)
  }
next
  fix ref assume some: "firstMissing cn (model b) fs = Some ref"
  {
    assume "\<not> truthy tgt"
    then show "lookup cn fs tgt b =
           Inl (MissingSchemaError ref,
                b\<lparr>pipeline := pipeline b @ joinStages cn (model b) (reached cn (model b) fs)\<rparr>)"
      by (simp add: lookup_addAll some addAll_falsy thenMissing_def)
  }
  {
    fix n assume "tgt = Some n \<and> n \<noteq> []"
    with assms have "tgt = Some n" "n \<noteq> []" "\<not> blocked b (Some n)"
      by (simp_all add: not_inherited_not_blocked)
    then show "lookup cn fs tgt b =
           Inl (MissingSchemaError ref,
                if joinStages cn (model b) (reached cn (model b) fs) = [] then b
                else b\<lparr>subPipeline :=
                       (subPipeline b)(n \<mapsto> entryOrEmpty b n @
                          joinStages cn (model b) (reached cn (model b) fs))\<rparr>)"
      by (simp add: lookup_addAll some addAll_named thenMissing_def)
  }
qed

theorem lookup_emits_one_stage_per_relation_field_witness:
  "firstMissing collections (model (new_builder friendRefs)) [''name'', ''friendId''] = None \<and>
   \<not> truthy None \<and>
   lookup collections [''name'', ''friendId''] None (new_builder friendRefs) =
     Inr ((new_builder friendRefs)\<lparr>pipeline :=
       [JObj [(''$lookup'', JObj [(''from'', JStr ''friends''), (''localField'', JStr ''friendId''),
                                 (''foreignField'', JStr ''_id''),
                                 (''as'', JStr ''friendIdDetails'')])]]\<rparr>) \<and>
   \<not> inherited ''joins'' \<and>
   subPipeline (state_of (lookup collections [''name'', ''friendId''] (Some ''joins'')
       (new_builder friendRefs))) ''joins'' =
     Some [JObj [(''$lookup'', JObj [(''from'', JStr ''friends''), (''localField'', JStr ''friendId''),
                               (''foreignField'', JStr ''_id''), (''as'', JStr ''friendIdDetails'')])]] \<and>
   firstMissing noModels (model (new_builder friendRefs)) [''name'', ''friendId''] = Some ''Friend'' \<and>
   lookup noModels [''name'', ''friendId''] None (new_builder friendRefs) =
     Inl (MissingSchemaError ''Friend'', new_builder friendRefs)"
proof -
  have nt: "\<not> truthy None" by (simp add: truthy_def)
  have m: "model (new_builder friendRefs) = friendRefs" by (simp add: new_builder_def)
  have fm: "firstMissing collections (model (new_builder friendRefs)) [''name'', ''friendId''] = None"
    by (simp add: m friendRefs_def collections_def)
  have fm2: "firstMissing noModels (model (new_builder friendRefs)) [''name'', ''friendId'']
      = Some ''Friend''"
    by (simp add: m friendRefs_def noModels_def)
  have j: "joinStages collections friendRefs [''name'', ''friendId''] =
     [JObj [(''$lookup'', JObj [(''from'', JStr ''friends''), (''localField'', JStr ''friendId''),
                               (''foreignField'', JStr ''_id''), (''as'', JStr ''friendIdDetails'')])]]"
    by (simp add: joinStages_def friendRefs_def collections_def lookupStage_def)
  have j2: "joinStages noModels friendRefs (reached noModels friendRefs [''name'', ''friendId'']) = []"
    by (simp add: joinStages_def reached_def registeredAt_def friendRefs_def noModels_def)
  have h1: "\<forall>n. (None :: string option) = Some n \<longrightarrow> \<not> inherited n" by simp
  have h2: "\<forall>n. Some ''joins'' = Some n \<longrightarrow> \<not> inherited n" by simp
  from lookup_emits_one_stage_per_relation_field
         [OF h1, of collections "new_builder friendRefs" "[''name'', ''friendId'']"] fm nt
  have "lookup collections [''name'', ''friendId''] None (new_builder friendRefs) =
      Inr ((new_builder friendRefs)\<lparr>pipeline := pipeline (new_builder friendRefs) @
         joinStages collections (model (new_builder friendRefs)) [''name'', ''friendId'']\<rparr>)"
    by blast
  then have a: "lookup collections [''name'', ''friendId''] None (new_builder friendRefs) =
     Inr ((new_builder friendRefs)\<lparr>pipeline :=
       [JObj [(''$lookup'', JObj [(''from'', JStr ''friends''), (''localField'', JStr ''friendId''),
                                 (''foreignField'', JStr ''_id''),
                                 (''as'', JStr ''friendIdDetails'')])]]\<rparr>)"
    by (simp add: m j) (simp add: new_builder_def)
  have "Some ''joins'' = Some ''joins'' \<and> ''joins'' \<noteq> []" by simp
  with lookup_emits_one_stage_per_relation_field
         [OF h2, of collections "new_builder friendRefs" "[''name'', ''friendId'']"] fm
  have "lookup collections [''name'', ''friendId''] (Some ''joins'') (new_builder friendRefs) =
        Inr (if joinStages collections (model (new_builder friendRefs)) [''name'', ''friendId''] = []
         then new_builder friendRefs
         else (new_builder friendRefs)\<lparr>subPipeline :=
                (subPipeline (new_builder friendRefs))(''joins'' \<mapsto>
                   entryOrEmpty (new_builder friendRefs) ''joins'' @
                   joinStages collections (model (new_builder friendRefs)) [''name'', ''friendId''])\<rparr>)"
    by blast
  then have b: "subPipeline (state_of (lookup collections [''name'', ''friendId''] (Some ''joins'')
        (new_builder friendRefs))) ''joins'' =
     Some [JObj [(''$lookup'', JObj [(''from'', JStr ''friends''), (''localField'', JStr ''friendId''),
                               (''foreignField'', JStr ''_id''), (''as'', JStr ''friendIdDetails'')])]]"
    by (simp add: m j) (simp add: new_builder_def entryOrEmpty_def)
  from lookup_emits_one_stage_per_relation_field
         [OF h1, of noModels "new_builder friendRefs" "[''name'', ''friendId'']"] fm2 nt
  have "lookup noModels [''name'', ''friendId''] None (new_builder friendRefs) =
           Inl (MissingSchemaError ''Friend'',
                (new_builder friendRefs)\<lparr>pipeline := pipeline (new_builder friendRefs) @
                  joinStages noModels (model (new_builder friendRefs))
                    (reached noModels (model (new_builder friendRefs)) [''name'', ''friendId''])\<rparr>)"
    by blast
  then have c: "lookup noModels [''name'', ''friendId''] None (new_builder friendRefs) =
     Inl (MissingSchemaError ''Friend'', new_builder friendRefs)"
    by (simp add: m j2)
  have i: "\<not> inherited ''joins''" by simp
  from fm nt a i b fm2 c show ?thesis by blast
qed




end
